theory Spec2Isabelle
  imports Complex_Main "HOL-Library.AList"
begin

section \<open>Federated learning coordinator (federated\_coordinator.py)\<close>

text \<open>
  The development embeds \<^verbatim>\<open>src/ai-ml/federated-learning/federated_coordinator.py\<close>.

  Numbers. Python floats are modelled by \<^typ>\<open>real\<close>: the arithmetic is exact and the
  rounding of IEEE doubles is not represented. Python ints are \<^typ>\<open>int\<close>; the results
  of \<^verbatim>\<open>len\<close> are \<^typ>\<open>nat\<close>.

  Tensors. The coordinator only ever applies \<^verbatim>\<open>torch.zeros_like\<close>, \<^verbatim>\<open>+=\<close>, \<^verbatim>\<open>-\<close>
  and multiplication by a Python float to the tensors of a state dict, always between tensors stored
  under the same parameter name. A tensor is therefore a value of a type \<open>'t\<close> of class
  \<open>real_vector\<close>: the shape of the tensor is fixed by the type, \<^verbatim>\<open>zeros_like\<close> is
  \<open>0\<close> and \<^verbatim>\<open>w * t\<close> is \<open>w *\<^sub>R t\<close>.

  Dictionaries. A state dict (an \<^verbatim>\<open>OrderedDict\<close>) and the \<^verbatim>\<open>updates\<close> dict of a client are
  association lists in insertion order; \<^const>\<open>map_of\<close> reads a key (the value \<open>None\<close> is
  Python's \<^verbatim>\<open>KeyError\<close>) and \<^const>\<open>AList.update\<close> stores one, in place when the key
  exists and at the end otherwise.

  Exceptions are values of \<open>py_error\<close>; a function that can raise returns a sum whose left
  injection is the exception, paired with the state it leaves behind where it mutates one.
\<close>

subsection \<open>Data model\<close>

datatype py_error =
    ZeroDivisionError
  | KeyError string
  | ValueError string
  | RuntimeError string

type_synonym 't state_dict = "(string \<times> 't) list"

record federated_config =
  num_rounds :: int
  num_clients :: int
  local_epochs :: int
  learning_rate :: real
  batch_size :: int
  min_clients :: int
  privacy_budget :: real
  noise_multiplier :: real
  max_grad_norm :: real

text \<open>
  A \<^verbatim>\<open>FederatedClient\<close>, as far as the server looks at it: its identifier and the length of
  its dataset. Its data, data loader and model replica stay inside the client (see
  \<open>round_env\<close> below).
\<close>

record federated_client =
  client_id :: string
  dataset_len :: nat

text \<open>The dict returned by \<^verbatim>\<open>FederatedClient.local_train\<close>.\<close>

record 't client_update =
  client_id :: string
  updates :: "'t state_dict"
  num_samples :: nat
  loss :: real

text \<open>
  The dict returned by \<^verbatim>\<open>FederatedClient.evaluate\<close>, with the \<^verbatim>\<open>'client_id'\<close> entry that
  \<^verbatim>\<open>federated_round\<close> adds to it.
\<close>

record eval_result =
  accuracy :: real
  loss :: real
  num_samples :: nat
  client_id :: "string option"

subsection \<open>\<^verbatim>\<open>FederatedServer.aggregate_updates\<close>\<close>

text \<open>
  \<^verbatim>\<open>for key in aggregated_updates: aggregated_updates[key] += weight * update['updates'][key]\<close>.
  The loop runs over the entries of the local dict \<^verbatim>\<open>aggregated_updates\<close>; a key that the
  client's dict lacks raises \<^verbatim>\<open>KeyError\<close> at the first such key.
\<close>

fun weighted_add :: "real \<Rightarrow> ('t::real_vector) state_dict \<Rightarrow> 't state_dict \<Rightarrow> py_error + 't state_dict" where
  "weighted_add weight upd [] = Inr []"
| "weighted_add weight upd ((key, a) # aggregated) =
     (case map_of upd key of
        None \<Rightarrow> Inl (KeyError key)
      | Some d \<Rightarrow>
          (case weighted_add weight upd aggregated of
             Inl e \<Rightarrow> Inl e
           | Inr aggregated' \<Rightarrow> Inr ((key, a + weight *\<^sub>R d) # aggregated')))"

text \<open>
  \<^verbatim>\<open>for update in client_updates: weight = update['num_samples'] / total_samples; ...\<close>.
  Both operands of \<^verbatim>\<open>/\<close> are Python ints, so a zero \<^verbatim>\<open>total_samples\<close> raises
  \<^verbatim>\<open>ZeroDivisionError\<close>.
\<close>

fun weighted_average :: "nat \<Rightarrow> ('t::real_vector) client_update list \<Rightarrow> 't state_dict \<Rightarrow> py_error + 't state_dict" where
  "weighted_average total_samples [] aggregated = Inr aggregated"
| "weighted_average total_samples (update # client_updates) aggregated =
     (if total_samples = 0 then Inl ZeroDivisionError
      else
        (case weighted_add (real (client_update.num_samples update) / real total_samples)
                (updates update) aggregated of
           Inl e \<Rightarrow> Inl e
         | Inr aggregated' \<Rightarrow> weighted_average total_samples client_updates aggregated'))"

text \<open>
  \<^verbatim>\<open>for key in aggregated_updates: global_state[key] += aggregated_updates[key]\<close>.
  \<^verbatim>\<open>global_state\<close> is the dict returned by \<^verbatim>\<open>state_dict()\<close>, whose tensors share their
  storage with the parameters of the global model, and \<^verbatim>\<open>+=\<close> on a tensor works in place:
  the keys handled before a \<^verbatim>\<open>KeyError\<close> stay updated. The function returns the exception,
  if any, and the state of the global model.
\<close>

fun apply_updates :: "('t::real_vector) state_dict \<Rightarrow> 't state_dict \<Rightarrow> py_error option \<times> 't state_dict" where
  "apply_updates global_state [] = (None, global_state)"
| "apply_updates global_state ((key, a) # aggregated) =
     (case map_of global_state key of
        None \<Rightarrow> (Some (KeyError key), global_state)
      | Some v \<Rightarrow> apply_updates (AList.update key (v + a) global_state) aggregated)"

text \<open>
  \<^verbatim>\<open>aggregate_updates(self, client_updates)\<close>, on the state dict of \<^verbatim>\<open>self.global_model\<close>.
  The final \<^verbatim>\<open>load_state_dict(global_state)\<close> copies every tensor onto itself.
\<close>

definition aggregate_updates ::
  "('t::real_vector) state_dict \<Rightarrow> 't client_update list \<Rightarrow> (py_error + unit) \<times> 't state_dict" where
  "aggregate_updates global_model client_updates =
     (if client_updates = [] then (Inr (), global_model)
      else
        let total_samples = sum_list (map client_update.num_samples client_updates);
            aggregated_updates = map (\<lambda>(key, v). (key, 0)) (updates (hd client_updates))
        in (case weighted_average total_samples client_updates aggregated_updates of
              Inl e \<Rightarrow> (Inl e, global_model)
            | Inr aggregated \<Rightarrow>
                (case apply_updates global_model aggregated of
                   (Some e, global_state) \<Rightarrow> (Inl e, global_state)
                 | (None, global_state) \<Rightarrow> (Inr (), global_state))))"

text \<open>
  The aggregated delta as the specification writes it (section 4.4):
  \<open>\<Sum>\<^sub>i (n\<^sub>i / \<Sum>\<^sub>j n\<^sub>j) * delta\<^sub>i[key]\<close>. This definition follows the words of the
  specification; \<open>aggregate_updates\<close> above follows the code.
\<close>

definition fedavg_delta :: "('t::real_vector) client_update list \<Rightarrow> string \<Rightarrow> 't" where
  "fedavg_delta client_updates key =
     (\<Sum>u\<leftarrow>client_updates.
        (real (client_update.num_samples u) / real (\<Sum>u'\<leftarrow>client_updates. client_update.num_samples u')) *\<^sub>R
        the (map_of (updates u) key))"

subsection \<open>\<^verbatim>\<open>PrivacyEngine\<close>\<close>

text \<open>
  The engine works on the gradients of the parameters of a model: \<^verbatim>\<open>param.grad\<close> is
  \<^verbatim>\<open>None\<close> or a tensor. Here a tensor is the list of its entries (its flattening), so that
  the 2-norm can be written out.
\<close>

record privacy_engine =
  noise_multiplier :: real
  max_grad_norm :: real

type_synonym gradients = "real list option list"

text \<open>\<^verbatim>\<open>param.grad.data.norm(2)\<close>\<close>

definition tensor_norm :: "real list \<Rightarrow> real" where
  "tensor_norm t = sqrt (\<Sum>x\<leftarrow>t. x\<^sup>2)"

text \<open>
  \<^verbatim>\<open>total_norm = 0.0; for param ...: if param.grad is not None: total_norm += param_norm.item() ** 2;
  total_norm = total_norm ** (1. / 2)\<close>
\<close>

definition total_norm :: "gradients \<Rightarrow> real" where
  "total_norm grads =
     sqrt (\<Sum>g\<leftarrow>grads. case g of None \<Rightarrow> 0 | Some t \<Rightarrow> (tensor_norm t)\<^sup>2)"

text \<open>
  The delta as one flattened vector: the concatenation of the gradients that are present.
\<close>

definition flatten :: "gradients \<Rightarrow> real list" where
  "flatten grads = concat (map (\<lambda>g. case g of None \<Rightarrow> [] | Some t \<Rightarrow> t) grads)"

text \<open>
  The clipping step of \<^verbatim>\<open>add_noise_to_gradients\<close>:
  \<^verbatim>\<open>clip_coef = self.max_grad_norm / (total_norm + 1e-6)\<close>, and \<^verbatim>\<open>mul_(clip_coef)\<close> on every
  gradient when \<^verbatim>\<open>clip_coef < 1\<close>.
\<close>

definition clip_coef :: "privacy_engine \<Rightarrow> gradients \<Rightarrow> real" where
  "clip_coef self grads = privacy_engine.max_grad_norm self / (total_norm grads + 1 / 10 ^ 6)"

definition clip_gradients :: "privacy_engine \<Rightarrow> gradients \<Rightarrow> gradients" where
  "clip_gradients self grads =
     (if clip_coef self grads < 1
      then map (map_option (map (\<lambda>x. x * clip_coef self grads))) grads
      else grads)"

text \<open>
  The noise step. \<^verbatim>\<open>torch.normal(mean=0.0, std=..., size=param.grad.shape)\<close> draws one sample
  per entry; the draw of entry \<open>j\<close> of parameter \<open>i\<close> is the mean plus the standard deviation
  times a standard normal variate \<open>z i j\<close>, which is an input of the model.
\<close>

definition add_noise :: "privacy_engine \<Rightarrow> (nat \<Rightarrow> nat \<Rightarrow> real) \<Rightarrow> gradients \<Rightarrow> gradients" where
  "add_noise self z grads =
     map (\<lambda>(i, g).
            map_option
              (\<lambda>t. map (\<lambda>(j, x).
                           x + (0 + privacy_engine.noise_multiplier self *
                                    privacy_engine.max_grad_norm self * z i j))
                     (enumerate 0 t)) g)
       (enumerate 0 grads)"

definition add_noise_to_gradients ::
  "privacy_engine \<Rightarrow> (nat \<Rightarrow> nat \<Rightarrow> real) \<Rightarrow> gradients \<Rightarrow> gradients" where
  "add_noise_to_gradients self z grads = add_noise self z (clip_gradients self grads)"

subsection \<open>\<^verbatim>\<open>FederatedClient\<close>\<close>

text \<open>
  What a round draws from outside the coordinator. \<open>choice_perm\<close> is the permutation of the
  client indices that \<^verbatim>\<open>np.random.choice(..., replace=False)\<close> draws. \<open>trained\<close> and
  \<open>evaluated\<close> stand for the PyTorch computations of \<^verbatim>\<open>local_train\<close> and \<^verbatim>\<open>evaluate\<close>
  on the client's private data: \<^verbatim>\<open>federated_round\<close> hands every selected client a fresh
  replica of the global model, so what they compute is determined by the client, the state
  dict of the global model and the randomness of the round. \<open>trained\<close> yields the exception
  that was raised, or the state dict of the replica after training (read at any key) with
  the mean batch loss; \<open>evaluated\<close> yields the exception, or accuracy and loss.
\<close>

record 't round_env =
  choice_perm :: "nat list"
  trained :: "federated_client \<Rightarrow> 't state_dict \<Rightarrow> py_error + ((string \<Rightarrow> 't) \<times> real)"
  evaluated :: "federated_client \<Rightarrow> 't state_dict \<Rightarrow> py_error + (real \<times> real)"

text \<open>
  \<^verbatim>\<open>local_train\<close>: \<^verbatim>\<open>initial_state\<close> is a copy of the replica's state dict, and
  \<^verbatim>\<open>updates[key] = self.model.state_dict()[key] - initial_state[key]\<close> for every key of it.
  The argument \<open>model\<close> is the state dict that \<^verbatim>\<open>set_model\<close> installed; the round always
  installs one first, so the \<^verbatim>\<open>ValueError\<close> for a missing model is not a case here.
\<close>

definition local_train ::
  "('t::real_vector) round_env \<Rightarrow> federated_client \<Rightarrow> 't state_dict \<Rightarrow> py_error + 't client_update" where
  "local_train env self model =
     (case trained env self model of
        Inl e \<Rightarrow> Inl e
      | Inr (final_state, mean_loss) \<Rightarrow>
          Inr \<lparr>client_update.client_id = federated_client.client_id self,
               updates = map (\<lambda>(key, initial). (key, final_state key - initial)) model,
               client_update.num_samples = dataset_len self,
               client_update.loss = mean_loss\<rparr>)"

definition evaluate ::
  "'t round_env \<Rightarrow> federated_client \<Rightarrow> 't state_dict \<Rightarrow> py_error + eval_result" where
  "evaluate env self model =
     (case evaluated env self model of
        Inl e \<Rightarrow> Inl e
      | Inr (acc, mean_loss) \<Rightarrow>
          Inr \<lparr>accuracy = acc, eval_result.loss = mean_loss,
               eval_result.num_samples = dataset_len self, eval_result.client_id = None\<rparr>)"

subsection \<open>\<^verbatim>\<open>FederatedServer\<close>\<close>

text \<open>
  The dict a round returns. The two shapes the code builds are the two constructors;
  \<open>round_no\<close> is the \<^verbatim>\<open>'round'\<close> entry that \<^verbatim>\<open>train\<close> stores into the dict afterwards.
\<close>

datatype round_result =
    Insufficient_clients (client_count: nat) (round_no: "nat option")
  | Completed (participating_clients: nat) (avg_loss: real) (avg_accuracy: real)
      (client_evaluations: "eval_result list") (round_no: "nat option")

fun status :: "round_result \<Rightarrow> string" where
  "status (Insufficient_clients _ _) = ''insufficient_clients''"
| "status (Completed _ _ _ _ _) = ''completed''"

fun set_round :: "nat \<Rightarrow> round_result \<Rightarrow> round_result" where
  "set_round n (Insufficient_clients c _) = Insufficient_clients c (Some n)"
| "set_round n (Completed p l a evs _) = Completed p l a evs (Some n)"

record 't federated_server =
  global_model :: "'t state_dict"
  config :: federated_config
  clients :: "federated_client list"
  round_results :: "round_result list"

text \<open>\<^verbatim>\<open>add_client\<close>: \<^verbatim>\<open>self.clients.append(client)\<close>, and a log line.\<close>

definition add_client :: "federated_client \<Rightarrow> 't federated_server \<Rightarrow> 't federated_server" where
  "add_client client self = self\<lparr>clients := clients self @ [client]\<rparr>"

text \<open>Python's \<^verbatim>\<open>int(x)\<close> on a float truncates towards zero.\<close>

definition py_int :: "real \<Rightarrow> int" where
  "py_int x = (if 0 \<le> x then \<lfloor>x\<rfloor> else \<lceil>x\<rceil>)"

text \<open>
  \<^verbatim>\<open>np.random.choice(a, size, replace=False)\<close>: a \<^verbatim>\<open>ValueError\<close> when \<^verbatim>\<open>a\<close> is empty (and
  samples are taken) or when \<^verbatim>\<open>size\<close> exceeds the population; otherwise the entries of \<^verbatim>\<open>a\<close>
  at the first \<^verbatim>\<open>size\<close> positions of a random permutation of the indices. The permutation
  is the argument \<open>perm\<close>; \<open>is_permutation perm n\<close> says that it is one of \<open>0, ..., n - 1\<close>.
\<close>

definition is_permutation :: "nat list \<Rightarrow> nat \<Rightarrow> bool" where
  "is_permutation perm n \<longleftrightarrow> distinct perm \<and> length perm = n \<and> list_all (\<lambda>i. i < n) perm"

definition random_choice :: "nat list \<Rightarrow> 'a list \<Rightarrow> nat \<Rightarrow> py_error + 'a list" where
  "random_choice perm a size' =
     (if a = [] \<and> size' \<noteq> 0 then Inl (ValueError ''a cannot be empty unless no samples are taken'')
      else if length a < size'
      then Inl (ValueError ''Cannot take a larger sample than population when replace is False'')
      else Inr (map (\<lambda>i. a ! i) (take size' perm)))"

text \<open>
  \<^verbatim>\<open>select_clients(self, fraction)\<close>:
  \<^verbatim>\<open>num_selected = max(1, int(len(self.clients) * fraction))\<close>, then the draw. The method
  assigns to nothing: it takes the list \<^verbatim>\<open>self.clients\<close> and returns the selection.
\<close>

definition select_clients :: "nat list \<Rightarrow> 'a list \<Rightarrow> real \<Rightarrow> py_error + 'a list" where
  "select_clients perm clients' fraction =
     (let num_selected = max 1 (py_int (real (length clients') * fraction))
      in random_choice perm clients' (nat num_selected))"

text \<open>
  The loop over the selected clients of \<^verbatim>\<open>federated_round\<close>. The \<^verbatim>\<open>try\<close> block appends the
  update as soon as \<^verbatim>\<open>local_train\<close> returns and the evaluation once \<^verbatim>\<open>evaluate\<close> returns;
  \<^verbatim>\<open>except Exception\<close> logs and goes on with the next client.
\<close>

fun collect ::
  "('t::real_vector) round_env \<Rightarrow> 't state_dict \<Rightarrow> federated_client list \<Rightarrow>
   't client_update list \<times> eval_result list \<Rightarrow> 't client_update list \<times> eval_result list" where
  "collect env model [] (client_updates, client_evals) = (client_updates, client_evals)"
| "collect env model (client # selected) (client_updates, client_evals) =
     (case local_train env client model of
        Inl e \<Rightarrow> collect env model selected (client_updates, client_evals)
      | Inr update_result \<Rightarrow>
          (case evaluate env client model of
             Inl e \<Rightarrow> collect env model selected (client_updates @ [update_result], client_evals)
           | Inr eval_result \<Rightarrow>
               collect env model selected
                 (client_updates @ [update_result],
                  client_evals @
                    [eval_result\<lparr>eval_result.client_id := Some (federated_client.client_id client)\<rparr>])))"

text \<open>
  What the loop gathers, said directly: the updates of the selected clients whose
  \<^verbatim>\<open>local_train\<close> returned, and the evaluations of those whose \<^verbatim>\<open>evaluate\<close> returned as
  well, both in the order of selection.
\<close>

definition collected_updates ::
  "('t::real_vector) round_env \<Rightarrow> 't state_dict \<Rightarrow> federated_client list \<Rightarrow> 't client_update list" where
  "collected_updates env model selected =
     List.map_filter
       (\<lambda>client. case local_train env client model of Inl e \<Rightarrow> None | Inr u \<Rightarrow> Some u)
       selected"

definition collected_evaluations ::
  "('t::real_vector) round_env \<Rightarrow> 't state_dict \<Rightarrow> federated_client list \<Rightarrow> eval_result list" where
  "collected_evaluations env model selected =
     List.map_filter
       (\<lambda>client.
          case local_train env client model of
            Inl e \<Rightarrow> None
          | Inr u \<Rightarrow>
              (case evaluate env client model of
                 Inl e \<Rightarrow> None
               | Inr ev \<Rightarrow> Some (ev\<lparr>eval_result.client_id := Some (federated_client.client_id client)\<rparr>)))
       selected"

text \<open>
  The selection of a round: \<^verbatim>\<open>select_clients()\<close> with the default fraction takes
  \<^verbatim>\<open>max(1, len(self.clients))\<close> clients, that is all of them, in the order of the drawn
  permutation.
\<close>

definition all_selected :: "'t round_env \<Rightarrow> 't federated_server \<Rightarrow> federated_client list" where
  "all_selected env self = map (\<lambda>i. clients self ! i) (choice_perm env)"

text \<open>\<^verbatim>\<open>np.mean\<close> of a non-empty list.\<close>

definition mean :: "real list \<Rightarrow> real" where
  "mean xs = sum_list xs / real (length xs)"

text \<open>
  \<^verbatim>\<open>federated_round(self)\<close>. The result is what the call returns or raises, and the server
  afterwards. \<^verbatim>\<open>select_clients()\<close> is called with its default fraction \<^verbatim>\<open>1.0\<close>; the
  exceptions of \<^verbatim>\<open>select_clients\<close> and \<^verbatim>\<open>aggregate_updates\<close> are outside the \<^verbatim>\<open>try\<close> block
  and leave the method.
\<close>

definition federated_round ::
  "('t::real_vector) round_env \<Rightarrow> 't federated_server \<Rightarrow> (py_error + round_result) \<times> 't federated_server" where
  "federated_round env self =
     (case select_clients (choice_perm env) (clients self) 1 of
        Inl e \<Rightarrow> (Inl e, self)
      | Inr selected_clients \<Rightarrow>
          if int (length selected_clients) < min_clients (config self)
          then (Inr (Insufficient_clients (length selected_clients) None), self)
          else
            (case collect env (global_model self) selected_clients ([], []) of
               (client_updates, client_evals) \<Rightarrow>
                 (case (if client_updates \<noteq> []
                        then aggregate_updates (global_model self) client_updates
                        else (Inr (), global_model self)) of
                    (Inl e, global_state) \<Rightarrow> (Inl e, self\<lparr>global_model := global_state\<rparr>)
                  | (Inr _, global_state) \<Rightarrow>
                      let round_result =
                            Completed (length client_updates)
                              (if client_updates \<noteq> []
                               then mean (map client_update.loss client_updates) else 0)
                              (if client_evals \<noteq> []
                               then mean (map accuracy client_evals) else 0)
                              client_evals None
                      in (Inr round_result,
                          self\<lparr>global_model := global_state,
                               round_results := round_results self @ [round_result]\<rparr>))))"

text \<open>The dict \<^verbatim>\<open>training_history\<close> that \<^verbatim>\<open>train\<close> returns.\<close>

record training_history =
  rounds :: "round_result list"
  final_accuracy :: real
  convergence_round :: int

text \<open>
  The loop of \<^verbatim>\<open>train\<close> over \<^verbatim>\<open>range(self.config.num_rounds)\<close>, with the local variables
  \<^verbatim>\<open>best_accuracy\<close>, \<^verbatim>\<open>no_improvement_count\<close> and the list \<^verbatim>\<open>training_history['rounds']\<close> as
  arguments; \<^verbatim>\<open>convergence_threshold = 0.001\<close> and \<^verbatim>\<open>patience = 3\<close>. \<open>envs round_num\<close> is the
  environment of the round.

  \<^verbatim>\<open>round_result['round'] = round_num + 1\<close> stores into the dict that \<^verbatim>\<open>federated_round\<close>
  returned. For a completed round this is the very object that the call appended to
  \<^verbatim>\<open>self.round_results\<close>, so the last entry of that list changes with it.
\<close>

fun train_loop ::
  "(nat \<Rightarrow> ('t::real_vector) round_env) \<Rightarrow> nat list \<Rightarrow> real \<Rightarrow> nat \<Rightarrow> round_result list \<Rightarrow>
   't federated_server \<Rightarrow> (py_error + training_history) \<times> 't federated_server" where
  "train_loop envs [] best_accuracy no_improvement_count history self =
     (Inr \<lparr>rounds = history, final_accuracy = best_accuracy, convergence_round = - 1\<rparr>, self)"
| "train_loop envs (round_num # rest) best_accuracy no_improvement_count history self =
     (case federated_round (envs round_num) self of
        (Inl e, self') \<Rightarrow> (Inl e, self')
      | (Inr returned, self') \<Rightarrow>
          let round_result = set_round (round_num + 1) returned;
              self'' = (if status returned = ''completed''
                        then self'\<lparr>round_results := butlast (round_results self') @ [round_result]\<rparr>
                        else self');
              history' = history @ [round_result]
          in if status round_result = ''completed''
             then
               let current_accuracy = avg_accuracy round_result;
                   best_accuracy' =
                     (if current_accuracy > best_accuracy + 1 / 1000
                      then current_accuracy else best_accuracy);
                   no_improvement_count' =
                     (if current_accuracy > best_accuracy + 1 / 1000
                      then 0 else no_improvement_count + 1)
               in if no_improvement_count' \<ge> 3
                  then (Inr \<lparr>rounds = history', final_accuracy = best_accuracy',
                             convergence_round = int (round_num + 1)\<rparr>, self'')
                  else train_loop envs rest best_accuracy' no_improvement_count' history' self''
             else train_loop envs rest best_accuracy no_improvement_count history' self'')"

definition train ::
  "(nat \<Rightarrow> ('t::real_vector) round_env) \<Rightarrow> 't federated_server \<Rightarrow>
   (py_error + training_history) \<times> 't federated_server" where
  "train envs self = train_loop envs [0..<nat (num_rounds (config self))] 0 0 [] self"

subsection \<open>The convergence tracker of the specification\<close>

text \<open>
  Section 4.5 of the specification describes the stopping rule as a component of its own.
  The definitions of this subsection follow its words, not the code: the state
  \<open>best_accuracy\<close> and \<open>no_improvement_count\<close>, both initially 0; what a round record does
  to it; and the STOP signal, with the defaults \<open>convergence_threshold = 0.001\<close> and
  \<open>patience = 3\<close>.
\<close>

record convergence_tracker =
  best_accuracy :: real
  no_improvement_count :: nat

definition tracker_init :: convergence_tracker where
  "tracker_init = \<lparr>best_accuracy = 0, no_improvement_count = 0\<rparr>"

fun tracker_observe :: "convergence_tracker \<Rightarrow> round_result \<Rightarrow> convergence_tracker" where
  "tracker_observe t (Completed _ _ a _ _) =
     (if a > best_accuracy t + 1 / 1000
      then \<lparr>best_accuracy = a, no_improvement_count = 0\<rparr>
      else t\<lparr>no_improvement_count := no_improvement_count t + 1\<rparr>)"
| "tracker_observe t (Insufficient_clients _ _) = t"

definition tracker_run :: "round_result list \<Rightarrow> convergence_tracker" where
  "tracker_run records = foldl tracker_observe tracker_init records"

definition tracker_stop :: "convergence_tracker \<Rightarrow> bool" where
  "tracker_stop t \<longleftrightarrow> no_improvement_count t \<ge> 3"

text \<open>The average accuracies of the completed rounds of a history, in order.\<close>

fun completed_accuracy :: "round_result \<Rightarrow> real option" where
  "completed_accuracy (Completed _ _ a _ _) = Some a"
| "completed_accuracy (Insufficient_clients _ _) = None"

definition completed_accuracies :: "round_result list \<Rightarrow> real list" where
  "completed_accuracies records = List.map_filter completed_accuracy records"

text \<open>
  The thresholded running best of a sequence of accuracies: it starts at 0, and an
  accuracy replaces it exactly when it is more than 0.001 above it.
\<close>

definition thresholded_best :: "real list \<Rightarrow> real" where
  "thresholded_best accs = foldl (\<lambda>best a. if a > best + 1 / 1000 then a else best) 0 accs"

subsection \<open>The invariant of the training loop\<close>

text \<open>
  \<open>loop_inv\<close> relates the local variables of \<^verbatim>\<open>train\<close> at the head of its loop to the
  history gathered so far: \<open>N\<close> is the round budget, \<open>rr0\<close> the list \<^verbatim>\<open>self.round_results\<close>
  before training and \<open>rr\<close> its current value. \<open>loop_post\<close> is what holds of the returned
  history.
\<close>

definition loop_inv ::
  "nat \<Rightarrow> round_result list \<Rightarrow> round_result list \<Rightarrow> real \<Rightarrow> nat \<Rightarrow> round_result list \<Rightarrow> bool" where
  "loop_inv N rr0 rr best cnt hist \<longleftrightarrow>
     length hist \<le> N \<and>
     best = best_accuracy (tracker_run hist) \<and>
     cnt = no_improvement_count (tracker_run hist) \<and>
     (\<forall>k \<le> length hist. \<not> tracker_stop (tracker_run (take k hist))) \<and>
     map round_no hist = map Some [1..<length hist + 1] \<and>
     rr = rr0 @ filter (\<lambda>r. status r = ''completed'') hist"

definition loop_post ::
  "nat \<Rightarrow> round_result list \<Rightarrow> round_result list \<Rightarrow> training_history \<Rightarrow> bool" where
  "loop_post N rr0 rr h \<longleftrightarrow>
     length (rounds h) \<le> N \<and>
     final_accuracy h = best_accuracy (tracker_run (rounds h)) \<and>
     (\<forall>k < length (rounds h). \<not> tracker_stop (tracker_run (take k (rounds h)))) \<and>
     convergence_round h =
       (if tracker_stop (tracker_run (rounds h)) then int (length (rounds h)) else - 1) \<and>
     (\<not> tracker_stop (tracker_run (rounds h)) \<longrightarrow> length (rounds h) = N) \<and>
     map round_no (rounds h) = map Some [1..<length (rounds h) + 1] \<and>
     rr = rr0 @ filter (\<lambda>r. status r = ''completed'') (rounds h)"

subsection \<open>Scenarios\<close>

text \<open>
  Concrete federations on which the theorems below are run. The model has the single
  scalar parameter \<open>w\<close>, initially 0.

  Two facilities with 100 and 300 samples; local training adds 1 to \<open>w\<close>, and in round
  \<open>n\<close> (counted from 0) every client reports the \<open>n\<close>-th accuracy of the script
  0.5, 0.5005, 0.5007, 0.5006, 0.9, ...
\<close>

definition two_clients :: "federated_client list" where
  "two_clients =
     [\<lparr>federated_client.client_id = ''facility_0'', dataset_len = 100\<rparr>,
      \<lparr>federated_client.client_id = ''facility_1'', dataset_len = 300\<rparr>]"

definition scripted_config :: federated_config where
  "scripted_config =
     \<lparr>num_rounds = 10, num_clients = 2, local_epochs = 5, learning_rate = 0.01,
      batch_size = 32, min_clients = 2, privacy_budget = 1,
      federated_config.noise_multiplier = 0, federated_config.max_grad_norm = 1\<rparr>"

definition scripted_server :: "real federated_server" where
  "scripted_server =
     \<lparr>global_model = [(''w'', 0)], config = scripted_config, clients = two_clients,
      round_results = []\<rparr>"

definition scripted_envs :: "nat \<Rightarrow> real round_env" where
  "scripted_envs round_num =
     \<lparr>choice_perm = [1, 0],
      trained = (\<lambda>client model. Inr (\<lambda>key. the (map_of model key) + 1, 0.25)),
      evaluated = (\<lambda>client model.
        Inr ([0.5, 0.5005, 0.5007, 0.5006, 0.9, 0.9, 0.9, 0.9, 0.9, 0.9] ! round_num, 0.2))\<rparr>"

text \<open>The same federation with \<^verbatim>\<open>min_clients = 3\<close> and three rounds: too few clients.\<close>

definition understaffed_server :: "real federated_server" where
  "understaffed_server =
     scripted_server\<lparr>config := scripted_config\<lparr>num_rounds := 3, min_clients := 3\<rparr>\<rparr>"

text \<open>A round in which the local training of every client raises.\<close>

definition failing_env :: "real round_env" where
  "failing_env =
     \<lparr>choice_perm = [0, 1],
      trained = (\<lambda>client model. Inl (RuntimeError ''size mismatch'')),
      evaluated = (\<lambda>client model. Inr (0.5, 0.2))\<rparr>"

text \<open>
  Five facilities and \<^verbatim>\<open>min_clients = 3\<close>, as in \<^verbatim>\<open>main\<close>; the local training of
  \<^verbatim>\<open>facility_2\<close> raises, the others add 1 to \<open>w\<close>.
\<close>

definition five_clients :: "federated_client list" where
  "five_clients =
     [\<lparr>federated_client.client_id = ''facility_0'', dataset_len = 1000\<rparr>,
      \<lparr>federated_client.client_id = ''facility_1'', dataset_len = 1100\<rparr>,
      \<lparr>federated_client.client_id = ''facility_2'', dataset_len = 1200\<rparr>,
      \<lparr>federated_client.client_id = ''facility_3'', dataset_len = 1300\<rparr>,
      \<lparr>federated_client.client_id = ''facility_4'', dataset_len = 1400\<rparr>]"

definition five_server :: "real federated_server" where
  "five_server =
     \<lparr>global_model = [(''w'', 0)],
      config = scripted_config\<lparr>num_rounds := 15, num_clients := 5, min_clients := 3\<rparr>,
      clients = five_clients, round_results = []\<rparr>"

definition partial_env :: "real round_env" where
  "partial_env =
     \<lparr>choice_perm = [4, 2, 0, 3, 1],
      trained = (\<lambda>client model.
        if federated_client.client_id client = ''facility_2''
        then Inl (RuntimeError ''size mismatch'')
        else Inr (\<lambda>key. the (map_of model key) + 1, 0.25)),
      evaluated = (\<lambda>client model. Inr (0.5, 0.2))\<rparr>"

section \<open>Aggregation\<close>

lemma weighted_add_ok:
  "fst ` set aggregated \<subseteq> fst ` set upd \<Longrightarrow>
   weighted_add w upd aggregated =
     Inr (map (\<lambda>(k, a). (k, a + w *\<^sub>R the (map_of upd k))) aggregated)"
proof (induction aggregated)
  case Nil
  then show ?case by simp
next
  case (Cons p aggregated)
  obtain k a where p: "p = (k, a)" by (cases p)
  from Cons.prems p have "k \<in> fst ` set upd" by simp
  then obtain d where "map_of upd k = Some d"
    by (metis map_of_eq_None_iff not_Some_eq)
  with Cons p show ?case by simp
qed

lemma weighted_average_ok:
  "n \<noteq> 0 \<Longrightarrow> \<forall>u \<in> set us. fst ` set aggregated \<subseteq> fst ` set (updates u) \<Longrightarrow>
   weighted_average n us aggregated =
     Inr (map (\<lambda>(k, a). (k, a + (\<Sum>u\<leftarrow>us. (real (client_update.num_samples u) / real n) *\<^sub>R
                                  the (map_of (updates u) k)))) aggregated)"
proof (induction us arbitrary: aggregated)
  case Nil
  then show ?case by (simp add: case_prod_unfold)
next
  case (Cons u us)
  let ?agg' = "map (\<lambda>(k, a). (k, a + (real (client_update.num_samples u) / real n) *\<^sub>R
                         the (map_of (updates u) k))) aggregated"
  have keys: "fst ` set ?agg' = fst ` set aggregated"
    by (force simp: case_prod_unfold)
  have step: "weighted_add (real (client_update.num_samples u) / real n) (updates u) aggregated = Inr ?agg'"
    using Cons.prems(2) by (intro weighted_add_ok) simp
  have "weighted_average n us ?agg' = Inr (map (\<lambda>(k, a). (k, a + (\<Sum>u\<leftarrow>us. (real (client_update.num_samples u) / real n) *\<^sub>R
                                  the (map_of (updates u) k)))) ?agg')"
  proof (rule Cons.IH)
    show "n \<noteq> 0" by (rule Cons.prems(1))
    show "\<forall>ua \<in> set us. fst ` set ?agg' \<subseteq> fst ` set (updates ua)"
      unfolding keys using Cons.prems(2) by simp
  qed
  then show ?case
    using Cons.prems(1) step by (simp add: case_prod_unfold comp_def add.assoc)
qed

lemma apply_updates_ok:
  "distinct (map fst aggregated) \<Longrightarrow> set (map fst aggregated) \<subseteq> set (map fst g) \<Longrightarrow>
   \<exists>g'. apply_updates g aggregated = (None, g') \<and> map fst g' = map fst g \<and>
     (\<forall>k. map_of g' k = (case map_of aggregated k of
                            None \<Rightarrow> map_of g k
                          | Some a \<Rightarrow> Some (the (map_of g k) + a)))"
proof (induction aggregated arbitrary: g)
  case Nil
  then show ?case by simp
next
  case (Cons p aggregated)
  obtain k a where p: "p = (k, a)" by (cases p)
  from Cons.prems p have kin: "k \<in> fst ` set g" by simp
  then obtain v where v: "map_of g k = Some v"
    by (metis map_of_eq_None_iff not_Some_eq)
  let ?g1 = "AList.update k (v + a) g"
  have keys1: "map fst ?g1 = map fst g"
    using kin by (simp add: AList.update_keys)
  have knot: "map_of aggregated k = None"
    using Cons.prems(1) p by (simp add: map_of_eq_None_iff)
  from Cons.prems p have "distinct (map fst aggregated)" "set (map fst aggregated) \<subseteq> set (map fst ?g1)"
    unfolding keys1 by auto
  from Cons.IH[OF this] obtain g' where g':
    "apply_updates ?g1 aggregated = (None, g')" "map fst g' = map fst ?g1"
    "\<forall>k'. map_of g' k' = (case map_of aggregated k' of None \<Rightarrow> map_of ?g1 k'
                             | Some a' \<Rightarrow> Some (the (map_of ?g1 k') + a'))"
    by blast
  have "map_of g' k' = (case map_of (p # aggregated) k' of None \<Rightarrow> map_of g k'
                          | Some a' \<Rightarrow> Some (the (map_of g k') + a'))" for k'
    using g'(3)[rule_format, of k'] knot v p
    by (cases "k' = k") (simp_all add: AList.update_conv' split: option.splits)
  with g'(1,2) keys1 v p show ?case by simp
qed


lemma map_of_map_entries:
  "map_of (map (\<lambda>(k, a). (k, f k a)) xs) key =
     (case map_of xs key of None \<Rightarrow> None | Some a \<Rightarrow> Some (f key a))"
  by (induction xs) auto

text \<open>
  Claim C1. Take a non-empty list of updates whose sample counts sum to a positive total and
  whose deltas all have the key set of the first one, these keys being parameters of the
  global model (a delta is a difference of two state dicts of the model), the first delta
  being a dict (no key twice). Then \<^verbatim>\<open>aggregate_updates\<close> returns, the global state dict
  keeps its keys in their order, every key of the deltas has gained exactly
  \<open>fedavg_delta\<close>, the sum of the deltas weighted by \<open>n\<^sub>i / \<Sum>\<^sub>j n\<^sub>j\<close>, and every other key
  holds what it held. The arithmetic is that of the reals.
\<close>

theorem aggregate_updates_weighted_sum:
  fixes global_model :: "('t::real_vector) state_dict"
  assumes nonempty: "client_updates \<noteq> []"
    and positive: "0 < (\<Sum>u\<leftarrow>client_updates. client_update.num_samples u)"
    and same_keys: "\<forall>u \<in> set client_updates.
           set (map fst (updates u)) = set (map fst (updates (hd client_updates)))"
    and known_keys: "set (map fst (updates (hd client_updates))) \<subseteq> set (map fst global_model)"
    and dict: "distinct (map fst (updates (hd client_updates)))"
  shows "\<exists>global_state.
           aggregate_updates global_model client_updates = (Inr (), global_state) \<and>
           map fst global_state = map fst global_model \<and>
           (\<forall>key. map_of global_state key =
              (if key \<in> set (map fst (updates (hd client_updates)))
               then Some (the (map_of global_model key) + fedavg_delta client_updates key)
               else map_of global_model key))"
proof -
  let ?n = "\<Sum>u\<leftarrow>client_updates. client_update.num_samples u"
  let ?first = "updates (hd client_updates)"
  let ?zeros = "map (\<lambda>(key, v). (key, 0::'t)) ?first"
  let ?agg = "map (\<lambda>(key, a). (key, a + fedavg_delta client_updates key)) ?zeros"
  have zeros_keys: "map fst ?zeros = map fst ?first"
    by (simp add: case_prod_unfold comp_def)
  have agg_keys: "map fst ?agg = map fst ?first"
    by (simp add: case_prod_unfold comp_def)
  have pos: "?n \<noteq> 0"
    using positive by (rule less_imp_neq[THEN not_sym])
  have keysub: "\<forall>u \<in> set client_updates. fst ` set ?zeros \<subseteq> fst ` set (updates u)"
  proof
    fix u assume "u \<in> set client_updates"
    with same_keys have "set (map fst (updates u)) = set (map fst ?zeros)"
      unfolding zeros_keys by blast
    then show "fst ` set ?zeros \<subseteq> fst ` set (updates u)"
      by (metis set_map subset_refl)
  qed
  have average: "weighted_average ?n client_updates ?zeros = Inr ?agg"
    unfolding fedavg_delta_def by (rule weighted_average_ok[OF pos keysub])
  have "distinct (map fst ?agg)" "set (map fst ?agg) \<subseteq> set (map fst global_model)"
    unfolding agg_keys by (rule dict, rule known_keys)
  from apply_updates_ok[OF this] obtain g' where g':
    "apply_updates global_model ?agg = (None, g')" "map fst g' = map fst global_model"
    "\<forall>k. map_of g' k = (case map_of ?agg k of None \<Rightarrow> map_of global_model k
                           | Some a \<Rightarrow> Some (the (map_of global_model k) + a))"
    by blast
  have value_of: "map_of ?agg key =
      (if key \<in> set (map fst ?first) then Some (fedavg_delta client_updates key) else None)" for key
  proof (cases "map_of ?first key")
    case None
    then have "key \<notin> set (map fst ?first)"
      by (simp add: map_of_eq_None_iff)
    with None show ?thesis
      by (simp only: map_of_map_entries option.case if_False)
  next
    case (Some v)
    then have "key \<in> set (map fst ?first)"
      by (metis map_of_eq_None_iff option.distinct(1) set_map)
    with Some show ?thesis
      by (simp only: map_of_map_entries option.case if_True add_0_left)
  qed
  have "aggregate_updates global_model client_updates = (Inr (), g')"
    using nonempty average g'(1) by (simp add: aggregate_updates_def Let_def)
  moreover have "map_of g' key =
      (if key \<in> set (map fst ?first)
       then Some (the (map_of global_model key) + fedavg_delta client_updates key)
       else map_of global_model key)" for key
    using g'(3)[rule_format, of key] value_of[of key] by (simp split: if_splits)
  ultimately show ?thesis
    using g'(2) by blast
qed

theorem aggregate_updates_weighted_sum_witness:
  "\<exists>global_state.
     aggregate_updates [(''w'', 0::real)]
       [\<lparr>client_update.client_id = ''facility_0'', updates = [(''w'', 1)],
         client_update.num_samples = 100, client_update.loss = 0\<rparr>,
        \<lparr>client_update.client_id = ''facility_1'', updates = [(''w'', 1)],
         client_update.num_samples = 300, client_update.loss = 0\<rparr>]
       = (Inr (), global_state) \<and>
     map fst global_state = [''w''] \<and> map_of global_state ''w'' = Some 1"
  using aggregate_updates_weighted_sum
    [of "[\<lparr>client_update.client_id = ''facility_0'', updates = [(''w'', 1::real)],
           client_update.num_samples = 100, client_update.loss = 0\<rparr>,
          \<lparr>client_update.client_id = ''facility_1'', updates = [(''w'', 1)],
           client_update.num_samples = 300, client_update.loss = 0\<rparr>]"
        "[(''w'', 0::real)]"]
  by (fastforce simp: fedavg_delta_def)

text \<open>
  Claim C10. \<^verbatim>\<open>aggregate_updates\<close> needs a positive sum of sample counts: on every non-empty
  list of updates whose sample counts are all zero the division
  \<^verbatim>\<open>update['num_samples'] / total_samples\<close> raises \<^verbatim>\<open>ZeroDivisionError\<close>, which nothing in
  the function catches; the call does not return. (The global model is as it was.)
\<close>

theorem aggregate_updates_zero_samples:
  fixes global_model :: "('t::real_vector) state_dict"
  assumes "client_updates \<noteq> []"
    and "\<forall>u \<in> set client_updates. client_update.num_samples u = 0"
  shows "aggregate_updates global_model client_updates = (Inl ZeroDivisionError, global_model)"
proof -
  obtain u us where us: "client_updates = u # us"
    using assms(1) by (cases client_updates) auto
  have "sum_list (map client_update.num_samples client_updates) = 0"
    using assms(2) by (induction client_updates) auto
  then show ?thesis
    by (simp add: aggregate_updates_def Let_def us)
qed

theorem aggregate_updates_zero_samples_witness:
  "aggregate_updates [(''w'', 0::real)]
     [\<lparr>client_update.client_id = ''facility_0'', updates = [(''w'', 1)],
       client_update.num_samples = 0, client_update.loss = 0\<rparr>]
   = (Inl ZeroDivisionError, [(''w'', 0)])"
  using aggregate_updates_zero_samples
    [of "[\<lparr>client_update.client_id = ''facility_0'', updates = [(''w'', 1::real)],
           client_update.num_samples = 0, client_update.loss = 0\<rparr>]" "[(''w'', 0::real)]"]
  by simp

section \<open>Privacy engine\<close>

lemma sum_squares_nonneg: "0 \<le> (\<Sum>x\<leftarrow>t. x\<^sup>2)" for t :: "real list"
  by (rule sum_list_nonneg) auto

lemma tensor_norm_power2: "(tensor_norm t)\<^sup>2 = (\<Sum>x\<leftarrow>t. x\<^sup>2)"
  using sum_squares_nonneg[of t] by (simp add: tensor_norm_def)

lemma total_norm_flatten: "total_norm grads = tensor_norm (flatten grads)"
proof -
  have "(\<Sum>g\<leftarrow>grads. case g of None \<Rightarrow> 0 | Some t \<Rightarrow> (tensor_norm t)\<^sup>2) =
        (\<Sum>x\<leftarrow>flatten grads. x\<^sup>2)"
    by (induction grads) (simp_all add: flatten_def tensor_norm_power2 split: option.splits)
  then show ?thesis
    by (simp add: total_norm_def tensor_norm_def)
qed

lemma tensor_norm_nonneg: "0 \<le> tensor_norm t"
  using sum_squares_nonneg[of t] by (simp add: tensor_norm_def)

lemma flatten_scaled:
  "flatten (map (map_option (map (\<lambda>x. x * c))) grads) = map (\<lambda>x. x * c) (flatten grads)"
  by (induction grads) (simp_all add: flatten_def split: option.splits)

lemma tensor_norm_scaled: "tensor_norm (map (\<lambda>x. x * c) t) = \<bar>c\<bar> * tensor_norm t"
proof -
  have "(\<Sum>x\<leftarrow>map (\<lambda>x. x * c) t. x\<^sup>2) = c\<^sup>2 * (\<Sum>x\<leftarrow>t. x\<^sup>2)"
    by (induction t) (simp_all add: power_mult_distrib algebra_simps)
  then show ?thesis
    by (simp add: tensor_norm_def real_sqrt_mult)
qed

text \<open>
  Claim C4. For every positive \<^verbatim>\<open>max_grad_norm\<close> and every list of gradients, the clipping
  step of \<^verbatim>\<open>add_noise_to_gradients\<close> leaves gradients whose flattening has Euclidean norm at
  most \<^verbatim>\<open>max_grad_norm\<close>; this norm is the \<^verbatim>\<open>total_norm\<close> that the code computes from the
  norms of the parameters. The noise is added to the clipped gradients afterwards
  (\<open>add_noise_to_gradients_def\<close>). The bound is exact over the reals and needs no
  assumption on the norm of the input.
\<close>

theorem clip_gradients_norm_bound:
  assumes "0 < privacy_engine.max_grad_norm self"
  shows "total_norm (clip_gradients self grads) = tensor_norm (flatten (clip_gradients self grads)) \<and>
         tensor_norm (flatten (clip_gradients self grads)) \<le> privacy_engine.max_grad_norm self"
proof
  show "total_norm (clip_gradients self grads) = tensor_norm (flatten (clip_gradients self grads))"
    by (rule total_norm_flatten)
next
  let ?M = "privacy_engine.max_grad_norm self"
  let ?N = "tensor_norm (flatten grads)"
  let ?c = "clip_coef self grads"
  have N: "0 \<le> ?N" by (rule tensor_norm_nonneg)
  have c: "?c = ?M / (?N + 1 / 10 ^ 6)"
    by (simp add: clip_coef_def total_norm_flatten)
  have den: "0 < ?N + 1 / 10 ^ 6"
    using N by (simp add: add_nonneg_pos)
  show "tensor_norm (flatten (clip_gradients self grads)) \<le> ?M"
  proof (cases "?c < 1")
    case True
    have c0: "0 \<le> ?c"
      unfolding c using assms den by (simp add: divide_nonneg_pos)
    have "tensor_norm (flatten (clip_gradients self grads)) = ?c * ?N"
      using True c0 by (simp add: clip_gradients_def flatten_scaled tensor_norm_scaled)
    also have "\<dots> = ?M * (?N / (?N + 1 / 10 ^ 6))"
      unfolding c by simp
    also have "\<dots> \<le> ?M * 1"
    proof (rule mult_left_mono)
      show "?N / (?N + 1 / 10 ^ 6) \<le> 1"
        using den by (simp add: divide_le_eq)
      show "0 \<le> ?M" using assms by simp
    qed
    finally show ?thesis by simp
  next
    case False
    then have "1 \<le> ?M / (?N + 1 / 10 ^ 6)"
      unfolding c by simp
    then have "?N + 1 / 10 ^ 6 \<le> ?M"
      using den by (simp add: le_divide_eq)
    then have "?N \<le> ?M" by simp
    with False show ?thesis
      by (simp add: clip_gradients_def)
  qed
qed

theorem clip_gradients_norm_bound_witness:
  "0 < privacy_engine.max_grad_norm \<lparr>privacy_engine.noise_multiplier = 1 / 10, privacy_engine.max_grad_norm = 1\<rparr> \<and>
   tensor_norm (flatten (clip_gradients
       \<lparr>privacy_engine.noise_multiplier = 1 / 10, privacy_engine.max_grad_norm = 1\<rparr>
       [Some [3, 4], None, Some [12]])) \<le> 1"
  using clip_gradients_norm_bound
    [of "\<lparr>privacy_engine.noise_multiplier = 1 / 10, privacy_engine.max_grad_norm = 1\<rparr>"
        "[Some [3, 4], None, Some [12]]"]
  by simp

section \<open>Client selection\<close>

lemma py_int_nonneg: "0 \<le> x \<Longrightarrow> py_int x = \<lfloor>x\<rfloor>"
  by (simp add: py_int_def)

lemma random_choice_positions:
  assumes "is_permutation perm (length a)" "n \<le> length a" "a \<noteq> []"
  shows "random_choice perm a n = Inr (map (\<lambda>i. a ! i) (take n perm))"
    and "length (take n perm) = n"
    and "distinct (take n perm)"
    and "\<forall>i \<in> set (take n perm). i < length a"
proof -
  show "random_choice perm a n = Inr (map (\<lambda>i. a ! i) (take n perm))"
    using assms(2,3) by (simp add: random_choice_def)
  show "length (take n perm) = n"
    using assms(1,2) by (simp add: is_permutation_def)
  show "distinct (take n perm)"
    using assms(1) by (simp add: is_permutation_def)
  have "\<forall>i \<in> set perm. i < length a"
    using assms(1) by (simp add: is_permutation_def list_all_iff)
  then show "\<forall>i \<in> set (take n perm). i < length a"
    by (meson in_set_takeD)
qed

text \<open>
  Claim C3, as the code has it. For a non-empty client list of length \<open>P\<close>, a fraction in
  \<open>[0, 1]\<close> and any permutation drawn by \<^verbatim>\<open>np.random.choice\<close>, \<^verbatim>\<open>select_clients\<close> returns
  exactly \<open>max 1 \<lfloor>fraction * P\<rfloor>\<close> clients, all of them registered, taken from pairwise
  distinct positions of the list. They are pairwise distinct clients when the list holds
  no client twice, which \<^verbatim>\<open>add_client\<close> does not ensure. The function reads the client
  list and nothing else, and returns the selection and nothing else: no state of the
  server changes.
\<close>

theorem select_clients_cardinality:
  assumes pool: "clients' \<noteq> []"
    and lower: "0 \<le> fraction"
    and upper: "fraction \<le> 1"
    and perm: "is_permutation perm (length clients')"
  shows "\<exists>selected.
           select_clients perm clients' fraction = Inr selected \<and>
           int (length selected) = max 1 \<lfloor>fraction * real (length clients')\<rfloor> \<and>
           set selected \<subseteq> set clients' \<and>
           (\<exists>positions. distinct positions \<and> (\<forall>i \<in> set positions. i < length clients') \<and>
                        selected = map (\<lambda>i. clients' ! i) positions) \<and>
           (distinct clients' \<longrightarrow> distinct selected)"
proof -
  let ?P = "length clients'"
  let ?k = "max 1 \<lfloor>fraction * real ?P\<rfloor>"
  let ?positions = "take (nat ?k) perm"
  let ?selected = "map (\<lambda>i. clients' ! i) ?positions"
  have "0 \<le> real ?P * fraction"
    using lower by simp
  then have num: "max 1 (py_int (real ?P * fraction)) = ?k"
    by (simp add: py_int_nonneg mult.commute)
  have "fraction * real ?P \<le> 1 * real ?P"
    using upper by (intro mult_right_mono) simp_all
  then have "\<lfloor>fraction * real ?P\<rfloor> \<le> int ?P"
    by (simp add: floor_le_iff)
  moreover have "1 \<le> int ?P"
    using pool by (cases clients') simp_all
  ultimately have bound: "nat ?k \<le> ?P"
    by simp
  note choice = random_choice_positions[OF perm bound pool]
  have sel: "select_clients perm clients' fraction = Inr ?selected"
    by (simp only: select_clients_def Let_def num choice(1))
  have len: "int (length ?selected) = ?k"
    using choice(2) by simp
  have sub: "set ?selected \<subseteq> set clients'"
    using choice(4) by auto
  have dist: "distinct ?selected" if "distinct clients'"
  proof -
    have "inj_on (\<lambda>i. clients' ! i) (set ?positions)"
      using choice(4) that by (auto simp: inj_on_def nth_eq_iff_index_eq)
    with choice(3) show ?thesis
      by (simp add: distinct_map)
  qed
  show ?thesis
    using sel len sub dist choice(3,4) by blast
qed

theorem select_clients_cardinality_witness:
  "is_permutation [3, 1, 4, 0, 2] (length [''a'', ''b'', ''c'', ''d'', ''e'']) \<and>
   (\<exists>selected. select_clients [3, 1, 4, 0, 2] [''a'', ''b'', ''c'', ''d'', ''e''] (1 / 2) = Inr selected \<and>
      int (length selected) = 2 \<and> distinct selected \<and> set selected \<subseteq> {''a'', ''b'', ''c'', ''d'', ''e''})"
  using select_clients_cardinality
    [of "[''a'', ''b'', ''c'', ''d'', ''e'']" "1 / 2" "[3, 1, 4, 0, 2]"]
  by (simp add: is_permutation_def) blast

text \<open>
  Claim C3 as stated fails: once \<^verbatim>\<open>facility_0\<close> has been registered a second time, the
  pool has three entries, and the selection of the whole pool along the permutation
  2, 0, 1 holds \<^verbatim>\<open>facility_0\<close> twice.
\<close>

theorem select_clients_repeats_client:
  "clients (add_client (hd two_clients) scripted_server) = two_clients @ [hd two_clients] \<and>
   is_permutation [2, 0, 1] (length (clients (add_client (hd two_clients) scripted_server))) \<and>
   select_clients [2, 0, 1] (clients (add_client (hd two_clients) scripted_server)) 1 =
     Inr [hd two_clients, hd two_clients, two_clients ! 1] \<and>
   \<not> distinct [hd two_clients, hd two_clients, two_clients ! 1]"
  by (simp add: add_client_def scripted_server_def two_clients_def is_permutation_def
      select_clients_def random_choice_def py_int_def)

section \<open>One round\<close>

lemma apply_updates_returns:
  "set (map fst aggregated) \<subseteq> set (map fst g) \<Longrightarrow>
   \<exists>g'. apply_updates g aggregated = (None, g') \<and> map fst g' = map fst g"
proof (induction aggregated arbitrary: g)
  case Nil
  then show ?case by simp
next
  case (Cons p aggregated)
  obtain k a where p: "p = (k, a)" by (cases p)
  from Cons.prems p have kin: "k \<in> fst ` set g" by auto
  then obtain v where v: "map_of g k = Some v"
    by (metis map_of_eq_None_iff not_Some_eq)
  let ?g1 = "AList.update k (v + a) g"
  have keys1: "map fst ?g1 = map fst g"
    using kin by (simp add: AList.update_keys)
  from Cons.prems p have "set (map fst aggregated) \<subseteq> set (map fst ?g1)"
    unfolding keys1 by auto
  from Cons.IH[OF this] keys1 v p show ?case by simp
qed

lemma aggregate_updates_returns:
  fixes g :: "('t::real_vector) state_dict"
  assumes "us \<noteq> []"
    and "0 < (\<Sum>u\<leftarrow>us. client_update.num_samples u)"
    and "\<forall>u \<in> set us. map fst (updates u) = map fst g"
  shows "\<exists>g'. aggregate_updates g us = (Inr (), g') \<and> map fst g' = map fst g"
proof -
  let ?n = "\<Sum>u\<leftarrow>us. client_update.num_samples u"
  let ?zeros = "map (\<lambda>(key, v). (key, 0::'t)) (updates (hd us))"
  have first: "map fst (updates (hd us)) = map fst g"
    using assms(1,3) by simp
  have zeros_keys: "map fst ?zeros = map fst g"
    using first by (simp add: case_prod_unfold comp_def)
  have pos: "?n \<noteq> 0"
    using assms(2) by (rule less_imp_neq[THEN not_sym])
  have keysub: "\<forall>u \<in> set us. fst ` set ?zeros \<subseteq> fst ` set (updates u)"
  proof
    fix u assume "u \<in> set us"
    with assms(3) have "set (map fst (updates u)) = set (map fst ?zeros)"
      unfolding zeros_keys by simp
    then show "fst ` set ?zeros \<subseteq> fst ` set (updates u)"
      by (metis set_map subset_refl)
  qed
  from weighted_average_ok[OF pos keysub] obtain agg where
    agg: "weighted_average ?n us ?zeros = Inr agg" "map fst agg = map fst ?zeros"
    by (simp add: case_prod_unfold comp_def)
  have "set (map fst agg) \<subseteq> set (map fst g)"
    unfolding agg(2) zeros_keys by simp
  from apply_updates_returns[OF this] obtain g' where
    "apply_updates g agg = (None, g')" "map fst g' = map fst g"
    by blast
  then show ?thesis
    using assms(1) agg(1) by (simp add: aggregate_updates_def Let_def)
qed

lemma select_clients_all:
  assumes "clients' \<noteq> []" "is_permutation perm (length clients')"
  shows "select_clients perm clients' 1 = Inr (map (\<lambda>i. clients' ! i) perm)"
proof -
  obtain c cs where "clients' = c # cs"
    using assms(1) by (cases clients') auto
  then have "nat (max 1 (int (length clients'))) = length clients'"
    by simp
  then show ?thesis
    using assms
    by (simp add: select_clients_def random_choice_def py_int_def is_permutation_def Let_def)
qed

lemma select_clients_none:
  "\<exists>e. select_clients perm [] 1 = Inl e"
  by (simp add: select_clients_def random_choice_def py_int_def Let_def)

lemma collect_eq:
  "collect env model selected (us, evs) =
     (us @ collected_updates env model selected, evs @ collected_evaluations env model selected)"
proof (induction selected arbitrary: us evs)
  case Nil
  show ?case by (simp add: collected_updates_def collected_evaluations_def)
next
  case (Cons client selected)
  show ?case
    by (simp add: Cons.IH collected_updates_def collected_evaluations_def
        split: sum.splits)
qed

lemma collected_updates_filter:
  "collected_updates env model selected =
     map (\<lambda>client. projr (local_train env client model))
       (filter (\<lambda>client. \<not> isl (local_train env client model)) selected)"
  by (induction selected) (auto simp: collected_updates_def split: sum.splits)

lemma collected_evaluations_empty:
  "collected_updates env model selected = [] \<Longrightarrow> collected_evaluations env model selected = []"
  by (induction selected)
     (auto simp: collected_updates_def collected_evaluations_def split: sum.splits)

lemma collected_evaluations_client:
  assumes "ev \<in> set (collected_evaluations env model selected)"
  shows "\<exists>c \<in> set selected. \<not> isl (local_train env c model) \<and>
           eval_result.client_id ev = Some (federated_client.client_id c)"
  using assms
proof (induction selected)
  case Nil
  then show ?case by (simp add: collected_evaluations_def)
next
  case (Cons c selected)
  show ?case
  proof (cases "ev \<in> set (collected_evaluations env model selected)")
    case True
    with Cons.IH show ?thesis by auto
  next
    case False
    with Cons.prems have "\<not> isl (local_train env c model) \<and>
        eval_result.client_id ev = Some (federated_client.client_id c)"
      by (auto simp: collected_evaluations_def split: sum.splits)
    then show ?thesis by auto
  qed
qed

lemma local_train_result:
  assumes "local_train env client model = Inr u"
  shows "map fst (updates u) = map fst model"
    and "client_update.num_samples u = dataset_len client"
    and "client_update.client_id u = federated_client.client_id client"
  using assms
  by (auto simp: local_train_def case_prod_unfold comp_def split: sum.splits)

lemma federated_round_selected:
  assumes "clients self \<noteq> []" "is_permutation (choice_perm env) (length (clients self))"
  defines "selected \<equiv> all_selected env self"
  defines "ups \<equiv> collected_updates env (global_model self) selected"
  defines "evs \<equiv> collected_evaluations env (global_model self) selected"
  shows "federated_round env self =
     (if int (length (clients self)) < min_clients (config self)
      then (Inr (Insufficient_clients (length (clients self)) None), self)
      else
        (case (if ups \<noteq> [] then aggregate_updates (global_model self) ups
               else (Inr (), global_model self)) of
           (Inl e, global_state) \<Rightarrow> (Inl e, self\<lparr>global_model := global_state\<rparr>)
         | (Inr _, global_state) \<Rightarrow>
             (Inr (Completed (length ups)
                     (if ups \<noteq> [] then mean (map client_update.loss ups) else 0)
                     (if evs \<noteq> [] then mean (map accuracy evs) else 0) evs None),
              self\<lparr>global_model := global_state,
                   round_results := round_results self @
                     [Completed (length ups)
                        (if ups \<noteq> [] then mean (map client_update.loss ups) else 0)
                        (if evs \<noteq> [] then mean (map accuracy evs) else 0) evs None]\<rparr>)))"
proof -
  have len: "length selected = length (clients self)"
    using assms(2) by (simp add: selected_def all_selected_def is_permutation_def)
  show ?thesis
    unfolding federated_round_def select_clients_all[OF assms(1,2)]
    by (simp add: collect_eq len Let_def ups_def evs_def selected_def[symmetric]
        all_selected_def[symmetric] split: sum.splits prod.splits)
qed


lemmas scenario_defs = two_clients_def scripted_config_def scripted_server_def scripted_envs_def
  understaffed_server_def failing_env_def five_clients_def five_server_def partial_env_def

lemmas run_defs = federated_round_def select_clients_def random_choice_def py_int_def
  local_train_def evaluate_def aggregate_updates_def mean_def Let_def

text \<open>
  Claim C2, as the code has it. Let the client list be non-empty and the draw a permutation,
  so that the selection is the whole list. A round that returns a record returns one with
  status \<^verbatim>\<open>insufficient_clients\<close> exactly when fewer than \<^verbatim>\<open>min_clients\<close> clients were
  selected; that round returns the record with \<^verbatim>\<open>client_count\<close> the number of selected
  clients and leaves the whole server, the global model included, as it was. When enough
  clients were selected and no update was collected, the round returns a record with status
  \<^verbatim>\<open>completed\<close>, zero participating clients, zero averages and no evaluations, and changes
  nothing of the server but the list of round results: the global model is as it was.
\<close>

theorem federated_round_insufficient_clients:
  assumes "clients self \<noteq> []"
    and "is_permutation (choice_perm env) (length (clients self))"
  shows "(int (length (clients self)) < min_clients (config self) \<longrightarrow>
            federated_round env self =
              (Inr (Insufficient_clients (length (clients self)) None), self)) \<and>
         (\<forall>r self'. federated_round env self = (Inr r, self') \<longrightarrow>
            (status r = ''insufficient_clients'' \<longleftrightarrow>
             int (length (clients self)) < min_clients (config self))) \<and>
         (min_clients (config self) \<le> int (length (clients self)) \<and>
          collected_updates env (global_model self) (all_selected env self) = [] \<longrightarrow>
            federated_round env self =
              (Inr (Completed 0 0 0 [] None),
               self\<lparr>round_results := round_results self @ [Completed 0 0 0 [] None]\<rparr>))"
proof (intro conjI impI allI)
  note round = federated_round_selected[OF assms]
  show "federated_round env self = (Inr (Insufficient_clients (length (clients self)) None), self)"
    if "int (length (clients self)) < min_clients (config self)"
    using that by (simp add: round)
  show "status r = ''insufficient_clients'' \<longleftrightarrow>
        int (length (clients self)) < min_clients (config self)"
    if "federated_round env self = (Inr r, self')" for r self'
    using that unfolding round
    by (auto split: if_splits sum.splits prod.splits)
  show "federated_round env self =
          (Inr (Completed 0 0 0 [] None),
           self\<lparr>round_results := round_results self @ [Completed 0 0 0 [] None]\<rparr>)"
    if "min_clients (config self) \<le> int (length (clients self)) \<and>
        collected_updates env (global_model self) (all_selected env self) = []"
    using that collected_evaluations_empty[of env "global_model self" "all_selected env self"]
    by (simp add: round)
qed

theorem federated_round_insufficient_clients_witness:
  "clients understaffed_server \<noteq> [] \<and>
   is_permutation (choice_perm (scripted_envs 0)) (length (clients understaffed_server)) \<and>
   int (length (clients understaffed_server)) < min_clients (config understaffed_server) \<and>
   federated_round (scripted_envs 0) understaffed_server =
     (Inr (Insufficient_clients 2 None), understaffed_server) \<and>
   min_clients (config scripted_server) \<le> int (length (clients scripted_server)) \<and>
   collected_updates failing_env (global_model scripted_server)
     (all_selected failing_env scripted_server) = [] \<and>
   federated_round failing_env scripted_server =
     (Inr (Completed 0 0 0 [] None),
      scripted_server\<lparr>round_results := [Completed 0 0 0 [] None]\<rparr>)"
  using federated_round_insufficient_clients[of understaffed_server "scripted_envs 0"]
    federated_round_insufficient_clients[of scripted_server failing_env]
  by (simp add: scenario_defs is_permutation_def collected_updates_def all_selected_def
      local_train_def)

text \<open>
  Claim C2 as stated fails: in the federation of two clients with \<^verbatim>\<open>min_clients = 2\<close>
  whose local trainings both raise, the loop collects no update and the round returns a
  record with status \<^verbatim>\<open>completed\<close>.
\<close>

theorem zero_updates_round_is_completed:
  "collect failing_env (global_model scripted_server) two_clients ([], []) = ([], []) \<and>
   federated_round failing_env scripted_server =
     (Inr (Completed 0 0 0 [] None),
      scripted_server\<lparr>round_results := [Completed 0 0 0 [] None]\<rparr>) \<and>
   status (Completed 0 0 0 [] None) = ''completed''"
  by (simp add: scenario_defs run_defs)

lemma sum_list_pos_nat:
  fixes xs :: "nat list"
  shows "xs \<noteq> [] \<Longrightarrow> \<forall>x \<in> set xs. 0 < x \<Longrightarrow> 0 < sum_list xs"
  by (induction xs) auto

text \<open>
  Claim C9. Let the client list be non-empty, the draw a permutation, at least
  \<^verbatim>\<open>min_clients\<close> clients registered and every dataset non-empty. Whatever clients raise
  in \<^verbatim>\<open>local_train\<close>, the round returns a record with status \<^verbatim>\<open>completed\<close>;
  \<^verbatim>\<open>participating_clients\<close> is the number of selected clients whose \<^verbatim>\<open>local_train\<close>
  returned; the global model is the result of \<^verbatim>\<open>aggregate_updates\<close> on exactly the updates
  of these clients, in the order of selection (and is unchanged when there is none); and
  every evaluation of the record belongs to such a client. The witness is the federation
  of five clients in which one raises: four participate.
\<close>

theorem federated_round_partial_failure:
  assumes pool: "clients self \<noteq> []"
    and perm: "is_permutation (choice_perm env) (length (clients self))"
    and enough: "min_clients (config self) \<le> int (length (clients self))"
    and samples: "\<forall>c \<in> set (clients self). 0 < dataset_len c"
  shows "\<exists>r self'.
           federated_round env self = (Inr r, self') \<and>
           status r = ''completed'' \<and>
           participating_clients r =
             length (filter (\<lambda>c. \<not> isl (local_train env c (global_model self)))
                       (all_selected env self)) \<and>
           global_model self' =
             (if collected_updates env (global_model self) (all_selected env self) = []
              then global_model self
              else snd (aggregate_updates (global_model self)
                          (collected_updates env (global_model self) (all_selected env self)))) \<and>
           collected_updates env (global_model self) (all_selected env self) =
             map (\<lambda>c. projr (local_train env c (global_model self)))
               (filter (\<lambda>c. \<not> isl (local_train env c (global_model self)))
                  (all_selected env self)) \<and>
           (\<forall>ev \<in> set (client_evaluations r).
              \<exists>c \<in> set (all_selected env self).
                \<not> isl (local_train env c (global_model self)) \<and>
                eval_result.client_id ev = Some (federated_client.client_id c))"
proof -
  let ?g = "global_model self"
  let ?sel = "all_selected env self"
  let ?ups = "collected_updates env ?g ?sel"
  let ?evs = "collected_evaluations env ?g ?sel"
  let ?ok = "\<lambda>c. \<not> isl (local_train env c ?g)"
  note round = federated_round_selected[OF pool perm]
  have ups: "?ups = map (\<lambda>c. projr (local_train env c ?g)) (filter ?ok ?sel)"
    by (rule collected_updates_filter)
  have sel_sub: "set ?sel \<subseteq> set (clients self)"
    using perm by (auto simp: all_selected_def is_permutation_def list_all_iff)
  have of_client: "\<exists>c \<in> set ?sel. local_train env c ?g = Inr u" if "u \<in> set ?ups" for u
    using that unfolding ups by (auto simp: isl_def split: sum.splits)
  have evs: "\<exists>c \<in> set ?sel. ?ok c \<and> eval_result.client_id ev = Some (federated_client.client_id c)"
    if "ev \<in> set ?evs" for ev
    using that by (rule collected_evaluations_client)
  show ?thesis
  proof (cases "?ups = []")
    case True
    then have none: "filter ?ok ?sel = []"
      unfolding ups by simp
    show ?thesis
      using True enough collected_evaluations_empty[OF True] none ups
      by (simp add: round)
  next
    case False
    have keys: "\<forall>u \<in> set ?ups. map fst (updates u) = map fst ?g"
      using of_client local_train_result(1) by blast
    have "\<forall>n \<in> set (map client_update.num_samples ?ups). 0 < n"
    proof
      fix n assume "n \<in> set (map client_update.num_samples ?ups)"
      then obtain u where u: "u \<in> set ?ups" "n = client_update.num_samples u" by auto
      from of_client[OF u(1)] obtain c where c: "c \<in> set ?sel" "local_train env c ?g = Inr u"
        by blast
      from local_train_result(2)[OF c(2)] u(2) c(1) sel_sub samples show "0 < n"
        by auto
    qed
    with False have "0 < (\<Sum>u\<leftarrow>?ups. client_update.num_samples u)"
      by (intro sum_list_pos_nat) simp_all
    from aggregate_updates_returns[OF False this keys] obtain g' where
      g': "aggregate_updates ?g ?ups = (Inr (), g')"
      by blast
    show ?thesis
      using False enough g' evs ups
      by (simp add: round)
  qed
qed

theorem federated_round_partial_failure_witness:
  "clients five_server \<noteq> [] \<and>
   is_permutation (choice_perm partial_env) (length (clients five_server)) \<and>
   min_clients (config five_server) \<le> int (length (clients five_server)) \<and>
   length (all_selected partial_env five_server) = 5 \<and>
   (\<exists>r self'. federated_round partial_env five_server = (Inr r, self') \<and>
      status r = ''completed'' \<and> participating_clients r = 4)"
proof -
  have pool: "clients five_server \<noteq> []"
    and perm: "is_permutation (choice_perm partial_env) (length (clients five_server))"
    and enough: "min_clients (config five_server) \<le> int (length (clients five_server))"
    and samples: "\<forall>c \<in> set (clients five_server). 0 < dataset_len c"
    and selected: "length (all_selected partial_env five_server) = 5"
    by (simp_all add: scenario_defs is_permutation_def all_selected_def)
  have four: "length (filter (\<lambda>c. \<not> isl (local_train partial_env c (global_model five_server)))
                        (all_selected partial_env five_server)) = 4"
    by (simp add: scenario_defs all_selected_def local_train_def)
  from federated_round_partial_failure[OF pool perm enough samples] four
  obtain r self' where "federated_round partial_env five_server = (Inr r, self')"
    "status r = ''completed''" "participating_clients r = 4"
    by auto
  with pool perm enough selected show ?thesis
    by blast
qed

section \<open>Training\<close>

lemma federated_round_history:
  "federated_round env self = (Inr r, self') \<Longrightarrow>
     round_results self' = round_results self @ (if status r = ''completed'' then [r] else [])"
  "federated_round env self = (Inl e, self') \<Longrightarrow> round_results self' = round_results self"
  by (auto simp: federated_round_def Let_def split: sum.splits if_splits prod.splits)

lemma status_set_round [simp]: "status (set_round n r) = status r"
  by (cases r) simp_all

lemma round_no_set_round [simp]: "round_no (set_round n r) = Some n"
  by (cases r) simp_all

lemma tracker_observe_completed:
  "status r = ''completed'' \<Longrightarrow>
   tracker_observe t r =
     (if avg_accuracy r > best_accuracy t + 1 / 1000
      then \<lparr>best_accuracy = avg_accuracy r, no_improvement_count = 0\<rparr>
      else t\<lparr>no_improvement_count := no_improvement_count t + 1\<rparr>)"
  by (cases r) simp_all

lemma tracker_observe_skipped: "status r \<noteq> ''completed'' \<Longrightarrow> tracker_observe t r = t"
  by (cases r) simp_all

lemma tracker_run_snoc: "tracker_run (records @ [r]) = tracker_observe (tracker_run records) r"
  by (simp add: tracker_run_def)

lemma tracker_eta:
  "\<lparr>best_accuracy = best_accuracy t, no_improvement_count = no_improvement_count t\<rparr> = t"
  by (cases t) simp

lemma loop_inv_not_stop:
  assumes "loop_inv N rr0 rr best cnt hist"
  shows "\<not> tracker_stop (tracker_run hist)"
proof -
  from assms have "\<forall>k \<le> length hist. \<not> tracker_stop (tracker_run (take k hist))"
    by (simp add: loop_inv_def)
  from this[rule_format, of "length hist"] show ?thesis by simp
qed

lemma loop_inv_snoc:
  assumes inv: "loop_inv N rr0 (round_results self) best cnt hist"
    and more: "length hist < N"
    and round: "federated_round env self = (Inr returned, self')"
  defines "r \<equiv> set_round (length hist + 1) returned"
  defines "rr' \<equiv> (if status returned = ''completed''
                   then butlast (round_results self') @ [r] else round_results self')"
  shows "length (hist @ [r]) \<le> N"
    and "\<forall>k < length (hist @ [r]). \<not> tracker_stop (tracker_run (take k (hist @ [r])))"
    and "map round_no (hist @ [r]) = map Some [1..<length (hist @ [r]) + 1]"
    and "rr' = rr0 @ filter (\<lambda>r. status r = ''completed'') (hist @ [r])"
    and "tracker_run (hist @ [r]) = tracker_observe \<lparr>best_accuracy = best, no_improvement_count = cnt\<rparr> r"
proof -
  show "length (hist @ [r]) \<le> N" using more by simp
  show "\<forall>k < length (hist @ [r]). \<not> tracker_stop (tracker_run (take k (hist @ [r])))"
    using inv by (simp add: loop_inv_def)
  show "map round_no (hist @ [r]) = map Some [1..<length (hist @ [r]) + 1]"
    using inv by (simp add: loop_inv_def r_def)
  show "rr' = rr0 @ filter (\<lambda>r. status r = ''completed'') (hist @ [r])"
    using inv federated_round_history(1)[OF round]
    by (simp add: loop_inv_def rr'_def r_def butlast_append)
  show "tracker_run (hist @ [r]) = tracker_observe \<lparr>best_accuracy = best, no_improvement_count = cnt\<rparr> r"
    using inv by (simp add: loop_inv_def tracker_run_snoc tracker_eta)
qed


lemma train_loop_post:
  assumes "train_loop envs ns best cnt hist self = (Inr h, self')"
    and "ns = [length hist..<N]"
    and "loop_inv N rr0 (round_results self) best cnt hist"
  shows "loop_post N rr0 (round_results self') h"
  using assms
proof (induction ns arbitrary: best cnt hist self)
  case Nil
  from Nil.prems(2)[symmetric] Nil.prems(3) have full: "length hist = N"
    by (auto simp: loop_inv_def)
  from Nil.prems(1) have h: "h = \<lparr>rounds = hist, final_accuracy = best, convergence_round = - 1\<rparr>"
    and self': "self' = self"
    by simp_all
  show ?case
    using Nil.prems(3) full loop_inv_not_stop[OF Nil.prems(3)]
    unfolding loop_post_def loop_inv_def h self'
    by simp
next
  case (Cons round_num rest)
  from Cons.prems(2)[symmetric] have more: "length hist < N"
    and num: "round_num = length hist"
    and rest: "rest = [length hist + 1..<N]"
    by (auto simp: upt_eq_Cons_conv)
  obtain out self1 where round: "federated_round (envs round_num) self = (out, self1)"
    by (cases "federated_round (envs round_num) self")
  with Cons.prems(1) obtain returned where out: "out = Inr returned"
    by (cases out) simp_all
  define r where "r = set_round (length hist + 1) returned"
  define self2 where "self2 = (if status returned = ''completed''
      then self1\<lparr>round_results := butlast (round_results self1) @ [r]\<rparr> else self1)"
  have rr2: "round_results self2 = (if status returned = ''completed''
                   then butlast (round_results self1) @ [r] else round_results self1)"
    by (simp add: self2_def)
  note snoc = loop_inv_snoc[OF Cons.prems(3) more round[unfolded out num], folded r_def, folded rr2]
  let ?t = "\<lparr>best_accuracy = best, no_improvement_count = cnt\<rparr>"
  have t: "?t = tracker_run hist" and cnt: "cnt < 3"
    using Cons.prems(3) by (auto simp: loop_inv_def tracker_stop_def tracker_eta)
  show ?case
  proof (cases "status returned = ''completed''")
    case skipped: False
    then have same: "tracker_run (hist @ [r]) = tracker_run hist"
      using snoc(5) t by (simp add: tracker_observe_skipped r_def)
    have inv': "loop_inv N rr0 (round_results self2) best cnt (hist @ [r])"
      unfolding loop_inv_def
      using snoc(1-4) same Cons.prems(3) cnt
      by (auto simp: loop_inv_def less_Suc_eq_le le_Suc_eq tracker_stop_def)
    have "train_loop envs rest best cnt (hist @ [r]) self2 = (Inr h, self')"
      using Cons.prems(1) round out skipped
      by (simp add: num r_def self2_def Let_def)
    from Cons.IH[OF this _ inv'] rest show ?thesis by simp
  next
    case completed: True
    let ?a = "avg_accuracy r"
    let ?best' = "if ?a > best + 1 / 1000 then ?a else best"
    let ?cnt' = "if ?a > best + 1 / 1000 then 0 else cnt + 1"
    have run': "tracker_run (hist @ [r]) = \<lparr>best_accuracy = ?best', no_improvement_count = ?cnt'\<rparr>"
      using snoc(5) completed by (simp add: tracker_observe_completed r_def)
    show ?thesis
    proof (cases "?cnt' \<ge> 3")
      case True
      then have "h = \<lparr>rounds = hist @ [r], final_accuracy = ?best',
                       convergence_round = int (round_num + 1)\<rparr>" and "self' = self2"
        using Cons.prems(1) round out completed
        by (auto simp: num r_def self2_def Let_def split: if_splits)
      then show ?thesis
        unfolding loop_post_def
        using snoc(1-4) run' True by (simp add: tracker_stop_def num)
    next
      case False
      have inv': "loop_inv N rr0 (round_results self2) ?best' ?cnt' (hist @ [r])"
        unfolding loop_inv_def
        using snoc(1-4) run' False
        by (auto simp: less_Suc_eq_le le_Suc_eq tracker_stop_def)
      have "train_loop envs rest ?best' ?cnt' (hist @ [r]) self2 = (Inr h, self')"
        using Cons.prems(1) round out completed False
        by (auto simp: num r_def self2_def Let_def split: if_splits)
      from Cons.IH[OF this _ inv'] rest show ?thesis by simp
    qed
  qed
qed


lemma train_post:
  assumes "train envs self = (Inr h, self')"
  shows "loop_post (nat (num_rounds (config self))) (round_results self) (round_results self') h"
proof (rule train_loop_post)
  show "train_loop envs [0..<nat (num_rounds (config self))] 0 0 [] self = (Inr h, self')"
    using assms by (simp add: train_def)
  show "[0..<nat (num_rounds (config self))] = [length ([]::round_result list)..<nat (num_rounds (config self))]"
    by simp
  show "loop_inv (nat (num_rounds (config self))) (round_results self) (round_results self) 0 0 []"
    by (simp add: loop_inv_def tracker_run_def tracker_init_def tracker_stop_def)
qed

lemma tracker_observe_accuracy:
  "tracker_observe t r =
     (case completed_accuracy r of
        None \<Rightarrow> t
      | Some a \<Rightarrow>
          if a > best_accuracy t + 1 / 1000
          then \<lparr>best_accuracy = a, no_improvement_count = 0\<rparr>
          else t\<lparr>no_improvement_count := no_improvement_count t + 1\<rparr>)"
  by (cases r) simp_all

lemma tracker_run_accuracies:
  "tracker_run records =
     foldl (\<lambda>t x. case x of
                     None \<Rightarrow> t
                   | Some a \<Rightarrow>
                       if a > best_accuracy t + 1 / 1000
                       then \<lparr>best_accuracy = a, no_improvement_count = 0\<rparr>
                       else t\<lparr>no_improvement_count := no_improvement_count t + 1\<rparr>)
       tracker_init (map completed_accuracy records)"
proof -
  have "tracker_observe =
      (\<lambda>t r. case completed_accuracy r of
                None \<Rightarrow> t
              | Some a \<Rightarrow>
                  if a > best_accuracy t + 1 / 1000
                  then \<lparr>best_accuracy = a, no_improvement_count = 0\<rparr>
                  else t\<lparr>no_improvement_count := no_improvement_count t + 1\<rparr>)"
    by (intro ext) (rule tracker_observe_accuracy)
  then show ?thesis
    by (simp add: tracker_run_def foldl_map)
qed

lemma scripted_tracker:
  assumes "map completed_accuracy records = [Some 0.5, Some 0.5005, Some 0.5007, Some 0.5006]"
  shows "tracker_run records = \<lparr>best_accuracy = 0.5, no_improvement_count = 3\<rparr>"
  unfolding tracker_run_accuracies assms by (simp add: tracker_init_def)

text \<open>
  Claim C5. \<^verbatim>\<open>train\<close> refines the convergence tracker of the specification. For every
  run that returns a history: \<^verbatim>\<open>final_accuracy\<close> is the tracker's \<open>best_accuracy\<close> after
  the records of the history (a completed round with accuracy \<open>a\<close> sets it to \<open>a\<close> and
  resets the counter when \<open>a > best_accuracy + 0.001\<close>, and increments the counter
  otherwise; an \<^verbatim>\<open>insufficient_clients\<close> round changes neither but is a record of the
  history, so it uses up a round); the history never exceeds \<^verbatim>\<open>num_rounds\<close> records; the
  tracker signals STOP (counter at 3) after no proper prefix of the history, so the loop
  halts as soon as it does; \<^verbatim>\<open>convergence_round\<close> is the number of the last round when the
  tracker signals STOP and \<open>-1\<close> otherwise, and then the whole budget was used. In
  particular a run whose first four records are completed rounds with accuracies 0.5,
  0.5005, 0.5007, 0.5006 has exactly four records, \<^verbatim>\<open>final_accuracy\<close> 0.5 and
  \<^verbatim>\<open>convergence_round\<close> 4.
\<close>

theorem train_convergence_tracking:
  assumes "train envs self = (Inr h, self')"
  shows "final_accuracy h = best_accuracy (tracker_run (rounds h)) \<and>
         length (rounds h) \<le> nat (num_rounds (config self)) \<and>
         (\<forall>k < length (rounds h). \<not> tracker_stop (tracker_run (take k (rounds h)))) \<and>
         convergence_round h =
           (if tracker_stop (tracker_run (rounds h)) then int (length (rounds h)) else - 1) \<and>
         (\<not> tracker_stop (tracker_run (rounds h)) \<longrightarrow>
            length (rounds h) = nat (num_rounds (config self))) \<and>
         (map completed_accuracy (take 4 (rounds h)) =
            [Some 0.5, Some 0.5005, Some 0.5007, Some 0.5006] \<longrightarrow>
          length (rounds h) = 4 \<and> final_accuracy h = 0.5 \<and> convergence_round h = 4)"
proof -
  note post = train_post[OF assms, unfolded loop_post_def]
  have scenario: "length (rounds h) = 4 \<and> final_accuracy h = 0.5 \<and> convergence_round h = 4"
    if script: "map completed_accuracy (take 4 (rounds h)) =
                  [Some 0.5, Some 0.5005, Some 0.5007, Some 0.5006]"
  proof -
    from script have "length (map completed_accuracy (take 4 (rounds h))) = 4"
      by simp
    then have least: "4 \<le> length (rounds h)"
      by simp
    have stop4: "tracker_stop (tracker_run (take 4 (rounds h)))"
      by (simp add: scripted_tracker[OF script] tracker_stop_def)
    have "\<not> 4 < length (rounds h)"
      using post stop4 by blast
    with least have len: "length (rounds h) = 4"
      by simp
    then have "take 4 (rounds h) = rounds h"
      by simp
    with script have run: "tracker_run (rounds h) = \<lparr>best_accuracy = 0.5, no_improvement_count = 3\<rparr>"
      using scripted_tracker by metis
    show ?thesis
      using post len by (simp add: run tracker_stop_def)
  qed
  show ?thesis
    using post scenario by blast
qed

lemma scripted_train:
  "\<exists>h s. train scripted_envs scripted_server = (Inr h, s) \<and>
     map completed_accuracy (rounds h) = [Some 0.5, Some 0.5005, Some 0.5007, Some 0.5006] \<and>
     final_accuracy h = 0.5"
  by (simp add: train_def upt_conv_Cons run_defs scenario_defs)

theorem train_convergence_tracking_witness:
  "\<exists>h s. train scripted_envs scripted_server = (Inr h, s) \<and>
     map completed_accuracy (take 4 (rounds h)) = [Some 0.5, Some 0.5005, Some 0.5007, Some 0.5006] \<and>
     length (rounds h) = 4 \<and> final_accuracy h = 0.5 \<and> convergence_round h = 4"
proof -
  from scripted_train obtain h s where run: "train scripted_envs scripted_server = (Inr h, s)"
    and script: "map completed_accuracy (rounds h) = [Some 0.5, Some 0.5005, Some 0.5007, Some 0.5006]"
    by (elim exE conjE)
  from script have "length (map completed_accuracy (rounds h)) = 4"
    by simp
  then have "take 4 (rounds h) = rounds h"
    by simp
  with script have script4: "map completed_accuracy (take 4 (rounds h)) =
      [Some 0.5, Some 0.5005, Some 0.5007, Some 0.5006]"
    by simp
  from train_convergence_tracking[OF run] have
    "map completed_accuracy (take 4 (rounds h)) =
       [Some 0.5, Some 0.5005, Some 0.5007, Some 0.5006] \<longrightarrow>
     length (rounds h) = 4 \<and> final_accuracy h = 0.5 \<and> convergence_round h = 4"
    by (elim conjE)
  from this[rule_format, OF script4] have halted: "length (rounds h) = 4"
    and best: "final_accuracy h = 0.5" and converged: "convergence_round h = 4"
    by simp_all
  show ?thesis
    by (intro exI[of _ h] exI[of _ s] conjI) (rule run script4 halted best converged)+
qed


lemma completed_accuracies_snoc:
  "completed_accuracies (records @ [r]) =
     completed_accuracies records @ (case completed_accuracy r of None \<Rightarrow> [] | Some a \<Rightarrow> [a])"
  by (simp add: completed_accuracies_def List.map_filter_def split: option.splits)

lemma tracker_best_bounds:
  "best_accuracy (tracker_run records) \<in> insert 0 (set (completed_accuracies records)) \<and>
   (\<forall>a \<in> set (completed_accuracies records). a \<le> best_accuracy (tracker_run records) + 1 / 1000)"
proof (induction records rule: rev_induct)
  case Nil
  show ?case
    by (simp add: tracker_run_def tracker_init_def completed_accuracies_def List.map_filter_def)
next
  case (snoc r records)
  show ?case
  proof (cases "completed_accuracy r")
    case None
    with snoc show ?thesis
      by (simp add: tracker_run_snoc tracker_observe_accuracy completed_accuracies_snoc)
  next
    case (Some a)
    with snoc show ?thesis
      by (auto simp: tracker_run_snoc tracker_observe_accuracy completed_accuracies_snoc)
  qed
qed

lemma tracker_best_thresholded:
  "best_accuracy (tracker_run records) = thresholded_best (completed_accuracies records)"
proof (induction records rule: rev_induct)
  case Nil
  show ?case
    by (simp add: tracker_run_def tracker_init_def thresholded_best_def completed_accuracies_def
        List.map_filter_def)
next
  case (snoc r records)
  then show ?case
    by (cases "completed_accuracy r")
       (simp_all add: tracker_run_snoc tracker_observe_accuracy completed_accuracies_snoc
          thresholded_best_def)
qed

text \<open>
  Claim C6, as the code has it. \<^verbatim>\<open>final_accuracy\<close> is the \<^verbatim>\<open>best_accuracy\<close> of the loop:
  the thresholded running best of the average accuracies of the completed rounds of the
  run, in their order. It starts at 0, and the accuracy of a completed round replaces it
  exactly when it is more than 0.001 above it. So it is 0 or the average accuracy of a
  completed round of the run, and no completed round of the run has an average accuracy
  more than 0.001 above it.
\<close>

theorem train_final_accuracy_thresholded:
  assumes "train envs self = (Inr h, self')"
  shows "final_accuracy h = thresholded_best (completed_accuracies (rounds h)) \<and>
         final_accuracy h \<in> insert 0 (set (completed_accuracies (rounds h))) \<and>
         (\<forall>a \<in> set (completed_accuracies (rounds h)). a \<le> final_accuracy h + 1 / 1000)"
proof -
  from train_post[OF assms] have final: "final_accuracy h = best_accuracy (tracker_run (rounds h))"
    by (simp add: loop_post_def)
  then have "final_accuracy h = thresholded_best (completed_accuracies (rounds h))"
    by (simp add: tracker_best_thresholded)
  then show ?thesis
    using final tracker_best_bounds[of "rounds h"] by simp
qed

lemma scripted_accuracies:
  assumes "map completed_accuracy records = [Some 0.5, Some 0.5005, Some 0.5007, Some 0.5006]"
  shows "completed_accuracies records = [0.5, 0.5005, 0.5007, 0.5006]"
proof -
  have "completed_accuracies records = List.map_filter id (map completed_accuracy records)"
    by (induction records)
       (simp_all add: completed_accuracies_def List.map_filter_simps split: option.splits)
  then show ?thesis
    unfolding assms by (simp add: List.map_filter_simps)
qed

theorem train_final_accuracy_thresholded_witness:
  "\<exists>h s. train scripted_envs scripted_server = (Inr h, s) \<and>
     completed_accuracies (rounds h) = [0.5, 0.5005, 0.5007, 0.5006] \<and>
     final_accuracy h = thresholded_best [0.5, 0.5005, 0.5007, 0.5006] \<and>
     thresholded_best [0.5, 0.5005, 0.5007, 0.5006] = 0.5 \<and>
     final_accuracy h \<in> insert 0 (set (completed_accuracies (rounds h))) \<and>
     0.5007 \<le> final_accuracy h + 1 / 1000"
proof -
  from scripted_train obtain h s where run: "train scripted_envs scripted_server = (Inr h, s)"
    and script: "map completed_accuracy (rounds h) = [Some 0.5, Some 0.5005, Some 0.5007, Some 0.5006]"
    by (elim exE conjE)
  note accs = scripted_accuracies[OF script]
  note bounds = train_final_accuracy_thresholded[OF run]
  have best: "final_accuracy h = thresholded_best [0.5, 0.5005, 0.5007, 0.5006]"
    using bounds[THEN conjunct1] unfolding accs .
  have half: "thresholded_best [0.5, 0.5005, 0.5007, 0.5006] = 0.5"
    by (simp add: thresholded_best_def)
  have member: "final_accuracy h \<in> insert 0 (set (completed_accuracies (rounds h)))"
    by (rule bounds[THEN conjunct2, THEN conjunct1])
  have all: "\<forall>a \<in> set (completed_accuracies (rounds h)). a \<le> final_accuracy h + 1 / 1000"
    by (rule bounds[THEN conjunct2, THEN conjunct2])
  have "(0.5007::real) \<in> set (completed_accuracies (rounds h))"
    unfolding accs by simp
  with all have near: "0.5007 \<le> final_accuracy h + 1 / 1000"
    by (rule bspec)
  show ?thesis
    by (intro exI[of _ h] exI[of _ s] conjI) (rule run accs best half member near)+
qed

text \<open>
  Claim C6 as stated fails on the scripted run: the completed rounds have accuracies
  0.5, 0.5005, 0.5007 and 0.5006, the largest is 0.5007, and \<^verbatim>\<open>final_accuracy\<close> is 0.5.
\<close>

theorem final_accuracy_is_not_the_maximum:
  "\<not> isl (fst (train scripted_envs scripted_server)) \<and>
   completed_accuracies (rounds (projr (fst (train scripted_envs scripted_server)))) =
     [0.5, 0.5005, 0.5007, 0.5006] \<and>
   final_accuracy (projr (fst (train scripted_envs scripted_server))) = 0.5 \<and>
   Max (set (completed_accuracies (rounds (projr (fst (train scripted_envs scripted_server)))))) =
     0.5007"
proof -
  from scripted_train obtain h s where run: "train scripted_envs scripted_server = (Inr h, s)"
    and script: "map completed_accuracy (rounds h) = [Some 0.5, Some 0.5005, Some 0.5007, Some 0.5006]"
    and final: "final_accuracy h = 0.5"
    by (elim exE conjE)
  note accs = scripted_accuracies[OF script]
  show ?thesis
    by (simp add: run accs final)
qed

text \<open>
  Claim C7, as the code has it. A call of \<^verbatim>\<open>federated_round\<close> leaves the earlier entries
  of \<^verbatim>\<open>self.round_results\<close> in place and appends the record it returns when that record is
  \<^verbatim>\<open>completed\<close>, and nothing otherwise. \<^verbatim>\<open>train\<close> keeps every record in the history it
  returns, one per round it ran, the \<open>k\<close>-th stamped with round number \<open>k\<close>:
  \<^verbatim>\<open>num_rounds\<close> of them unless the loop stopped early at \<^verbatim>\<open>convergence_round\<close>; and
  after \<^verbatim>\<open>train\<close> the list \<^verbatim>\<open>self.round_results\<close> is what it was, followed by the completed
  records of that history.
\<close>

theorem round_history_append_only:
  assumes "federated_round env self = (out, self1)"
    and "train envs server = (Inr h, server')"
  shows "round_results self1 =
           round_results self @
             (case out of Inl e \<Rightarrow> [] | Inr r \<Rightarrow> if status r = ''completed'' then [r] else []) \<and>
         round_results server' =
           round_results server @ filter (\<lambda>r. status r = ''completed'') (rounds h) \<and>
         map round_no (rounds h) = map Some [1..<length (rounds h) + 1] \<and>
         int (length (rounds h)) =
           (if convergence_round h = - 1 then max 0 (num_rounds (config server))
            else convergence_round h)"
proof -
  have "round_results self1 =
          round_results self @
            (case out of Inl e \<Rightarrow> [] | Inr r \<Rightarrow> if status r = ''completed'' then [r] else [])"
    using federated_round_history[of env self] assms(1) by (cases out) simp_all
  moreover note post = train_post[OF assms(2), unfolded loop_post_def]
  moreover have "int (length (rounds h)) =
      (if convergence_round h = - 1 then max 0 (num_rounds (config server))
       else convergence_round h)"
    using post by (auto split: if_splits)
  ultimately show ?thesis
    by blast
qed

lemma understaffed_round:
  "federated_round (scripted_envs n) understaffed_server =
     (Inr (Insufficient_clients 2 None), understaffed_server)"
  by (simp add: run_defs scenario_defs)

lemma understaffed_train:
  "train scripted_envs understaffed_server =
     (Inr \<lparr>rounds = [Insufficient_clients 2 (Some 1), Insufficient_clients 2 (Some 2),
                     Insufficient_clients 2 (Some 3)],
           final_accuracy = 0, convergence_round = - 1\<rparr>, understaffed_server)"
proof -
  have "[0..<nat (num_rounds (config understaffed_server))] = [0, 1, 2]"
    by (simp add: scenario_defs upt_conv_Cons)
  then show ?thesis
    by (simp add: train_def understaffed_round)
qed

theorem round_history_append_only_witness:
  "federated_round (scripted_envs 0) understaffed_server =
     (Inr (Insufficient_clients 2 None), understaffed_server) \<and>
   train scripted_envs understaffed_server =
     (Inr \<lparr>rounds = [Insufficient_clients 2 (Some 1), Insufficient_clients 2 (Some 2),
                     Insufficient_clients 2 (Some 3)],
           final_accuracy = 0, convergence_round = - 1\<rparr>, understaffed_server) \<and>
   round_results understaffed_server = round_results understaffed_server @ [] \<and>
   map round_no [Insufficient_clients 2 (Some 1), Insufficient_clients 2 (Some 2),
                 Insufficient_clients 2 (Some 3)] = [Some 1, Some 2, Some 3] \<and>
   (3::int) = max 0 (num_rounds (config understaffed_server))"
  using round_history_append_only[OF understaffed_round[of 0] understaffed_train]
    understaffed_round[of 0] understaffed_train
  by (simp add: upt_conv_Cons)

text \<open>
  Claim C7 as stated fails: with two clients and \<^verbatim>\<open>min_clients = 3\<close> the round returns an
  \<^verbatim>\<open>insufficient_clients\<close> record and \<^verbatim>\<open>self.round_results\<close> is as empty as before.
\<close>

theorem insufficient_round_is_not_recorded:
  "federated_round (scripted_envs 0) understaffed_server =
     (Inr (Insufficient_clients 2 None), understaffed_server) \<and>
   round_results understaffed_server = [] \<and>
   round_results (snd (federated_round (scripted_envs 0) understaffed_server)) = []"
  by (simp add: understaffed_round) (simp add: scenario_defs)

section \<open>Registration\<close>

text \<open>
  Claim C8, as the code has it. \<^verbatim>\<open>add_client\<close> has no check and no \<^verbatim>\<open>raise\<close>: it appends
  the client to the list whether or not its \<^verbatim>\<open>client_id\<close> is registered already, so that
  the number of registered clients with this identifier grows by one, and it changes
  nothing else of the server.
\<close>

theorem add_client_appends:
  "clients (add_client client self) = clients self @ [client] \<and>
   length (filter (\<lambda>c. federated_client.client_id c = federated_client.client_id client)
             (clients (add_client client self))) =
     Suc (length (filter (\<lambda>c. federated_client.client_id c = federated_client.client_id client)
                    (clients self))) \<and>
   global_model (add_client client self) = global_model self \<and>
   config (add_client client self) = config self \<and>
   round_results (add_client client self) = round_results self"
  by (simp add: add_client_def)

text \<open>
  Claim C8 as stated fails: registering \<^verbatim>\<open>facility_0\<close> with a server that has it already
  returns a server whose client list has grown.
\<close>

theorem add_client_accepts_duplicate:
  "federated_client.client_id (hd two_clients) \<in> federated_client.client_id ` set (clients scripted_server) \<and>
   clients (add_client (hd two_clients) scripted_server) = two_clients @ [hd two_clients] \<and>
   clients (add_client (hd two_clients) scripted_server) \<noteq> clients scripted_server"
  by (simp add: add_client_def scenario_defs)

end
